theory Spec2Isabelle
  imports Complex_Main
begin

section \<open>Data model (src/types.ts and the state of the App component in src/App.tsx)\<close>

text \<open>
  Numbers of the program are JavaScript numbers: IEEE 754 binary64 values. Timestamps,
  durations and ids are whole numbers far below \<open>2^53\<close>, where the arithmetic of the
  program is exact, so they are modelled as \<open>int\<close>. The thresholds of the configuration may
  be fractional (the default ideal time is 2.4 minutes). A finite binary64 value is a
  rational number, so a threshold is modelled as the rational it is, and a product of the
  program as the exact product rounded to the nearest binary64 value, ties to even
  (\<open>jsMul\<close>). \<open>Math.floor\<close> is \<open>floor\<close>. NaN and the infinities have no counterpart: the
  model covers finite thresholds and products below \<open>2^1024\<close>.
\<close>

subsection \<open>Rounding to binary64\<close>

text \<open>Rounding to the nearest integer, a tie going to the even neighbour.\<close>

definition roundHalfEven :: "rat \<Rightarrow> int" where
  "roundHalfEven x =
     (let f = \<lfloor>x\<rfloor>; d = x - of_int f
      in if d < 1 / 2 then f else if 1 / 2 < d then f + 1 else if even f then f else f + 1)"

text \<open>
  The spacing of the binary64 values around \<open>x\<close>: the power of two \<open>u\<close> with
  \<open>2^52 \<le> |x| / u < 2^53\<close>, and \<open>2^-1074\<close> below the normal range. The search starts at
  \<open>u = 1\<close>; the first argument bounds it by the exponent range of the format (971 doublings
  up, 1074 halvings down).
\<close>

fun ulpUp :: "nat \<Rightarrow> rat \<Rightarrow> rat \<Rightarrow> rat" where
  "ulpUp 0 x u = u"
| "ulpUp (Suc n) x u = (if 2 ^ 53 \<le> \<bar>x\<bar> / u then ulpUp n x (2 * u) else u)"

fun ulpDown :: "nat \<Rightarrow> rat \<Rightarrow> rat \<Rightarrow> rat" where
  "ulpDown 0 x u = u"
| "ulpDown (Suc n) x u = (if \<bar>x\<bar> / u < 2 ^ 52 then ulpDown n x (u / 2) else u)"

definition ulp :: "rat \<Rightarrow> rat" where
  "ulp x = (if 2 ^ 53 \<le> \<bar>x\<bar> then ulpUp 971 x 1 else ulpDown 1074 x 1)"

definition roundToDouble :: "rat \<Rightarrow> rat" where
  "roundToDouble x = of_int (roundHalfEven (x / ulp x)) * ulp x"

text \<open>The product \<open>x * y\<close> of two numbers of the program.\<close>

definition jsMul :: "rat \<Rightarrow> rat \<Rightarrow> rat" where
  "jsMul x y = roundToDouble (x * y)"

subsection \<open>Types of src/types.ts and the view of src/App.tsx\<close>

datatype AppView = SETUP | TRACKER | ANALYTICS

datatype QuestionStatus = NOT_STARTED | ACTIVE | PAUSED | SKIPPED | COMPLETED

datatype Subject = Maths | Physics | Chemistry

record AppConfig =
  range1Limit :: rat
  range2Lower :: rat
  range2Upper :: rat
  range3Limit :: rat
  longQuestionThresholdMin :: rat
  idealTimePerQuestionMin :: rat
  subject :: "Subject option"

text \<open>The literal \<open>2.4\<close> denotes the binary64 value nearest to \<open>12 / 5\<close>.\<close>

definition DEFAULT_CONFIG :: AppConfig where
  "DEFAULT_CONFIG =
     \<lparr>range1Limit = 2, range2Lower = 2, range2Upper = 3, range3Limit = 3,
      longQuestionThresholdMin = 7 / 2, idealTimePerQuestionMin = roundToDouble (12 / 5),
      subject = None\<rparr>"

text \<open>The field \<open>id\<close> of a question is called \<open>id_q\<close> here (\<open>id\<close> is the identity of HOL).\<close>

record Question =
  id_q :: int
  status :: QuestionStatus
  timeSpentMs :: int
  wasSkipped :: bool

text \<open>
  The state of the App component: its \<open>useState\<close> cells and its two refs.
  \<open>timerIntervalRef\<close> holds an interval handle or null; the program only ever tests it
  for being set, so it is a boolean here (True: an interval is registered).
\<close>

record AppState =
  view :: AppView
  questions :: "Question list"
  activeQuestionId :: "int option"
  config :: AppConfig
  totalAllocatedTimeMs :: int
  remainingTimeMs :: int
  isGlobalPaused :: bool
  showGlobalTimerControls :: bool
  timerIntervalRef :: bool
  lastTickRef :: int

definition initialApp :: AppState where
  "initialApp =
     \<lparr>view = SETUP, questions = [], activeQuestionId = None, config = DEFAULT_CONFIG,
      totalAllocatedTimeMs = 0, remainingTimeMs = 0, isGlobalPaused = False,
      showGlobalTimerControls = False, timerIntervalRef = False, lastTickRef = 0\<rparr>"

section \<open>Operations of src/App.tsx\<close>

text \<open>
  \<open>handleStartSession\<close>. \<open>Array.from({length: count}, ...)\<close> builds the entries for the
  indices \<open>0, ..., count - 1\<close> and is empty for a count below one. The budget is
  \<open>Math.floor(count * idealTimePerQuestionMin * 60 * 1000)\<close>: three products of the
  program, taken from the left.
\<close>

definition handleStartSession :: "int \<Rightarrow> AppConfig \<Rightarrow> AppState \<Rightarrow> AppState" where
  "handleStartSession count newConfig s =
     (let newQuestions =
            map (\<lambda>i. \<lparr>id_q = int i + 1, status = NOT_STARTED, timeSpentMs = 0,
                       wasSkipped = False\<rparr>) [0..<nat count];
          allocatedMs =
            \<lfloor>jsMul (jsMul (jsMul (of_int count) (idealTimePerQuestionMin newConfig)) 60) 1000\<rfloor>
      in s\<lparr>config := newConfig, questions := newQuestions,
            totalAllocatedTimeMs := allocatedMs, remainingTimeMs := allocatedMs,
            isGlobalPaused := False, view := TRACKER\<rparr>)"

text \<open>
  The timer effect (\<open>useEffect\<close> with the dependencies \<open>view\<close>, \<open>isGlobalPaused\<close> and
  \<open>activeQuestionId\<close>). React runs the cleanup of the previous run, then the body. The
  cleanup clears a registered interval; a previous run that returned without a cleanup
  had cleared the interval itself. \<open>now\<close> is the value of \<open>Date.now()\<close> read by the body.
\<close>

definition timerCleanup :: "AppState \<Rightarrow> AppState" where
  "timerCleanup s = (if timerIntervalRef s then s\<lparr>timerIntervalRef := False\<rparr> else s)"

definition timerEffect :: "int \<Rightarrow> AppState \<Rightarrow> AppState" where
  "timerEffect now s0 =
     (let s = timerCleanup s0
      in if view s \<noteq> TRACKER \<or> isGlobalPaused s then
           (if timerIntervalRef s then s\<lparr>timerIntervalRef := False\<rparr> else s)
         else if \<not> timerIntervalRef s then s\<lparr>lastTickRef := now, timerIntervalRef := True\<rparr>
         else s)"

text \<open>
  The callback given to \<open>window.setInterval\<close>: one tick of the session clock. \<open>now\<close> is
  the value of \<open>Date.now()\<close> at the tick. The callback closes over the
  \<open>activeQuestionId\<close> of the render that registered it; the effect is run again whenever
  \<open>activeQuestionId\<close> changes, so that value is the current one.
\<close>

definition intervalCallback :: "int \<Rightarrow> AppState \<Rightarrow> AppState" where
  "intervalCallback now s =
     (let delta = now - lastTickRef s;
          s1 = s\<lparr>lastTickRef := now, remainingTimeMs := remainingTimeMs s - delta\<rparr>
      in case activeQuestionId s of
           None \<Rightarrow> s1
         | Some a \<Rightarrow>
             s1\<lparr>questions :=
                  map (\<lambda>q. if id_q q = a \<and> status q = ACTIVE
                           then q\<lparr>timeSpentMs := timeSpentMs q + delta\<rparr> else q)
                      (questions s)\<rparr>)"

text \<open>
  \<open>updateQuestionStatus\<close>. The function given to \<open>prev.map\<close> writes
  \<open>activeQuestionId\<close> and \<open>lastTickRef\<close> while it maps, and only for an element whose id
  is the requested one. \<open>updateOne\<close> is that function on one element, with the pair
  (\<open>activeQuestionId\<close>, \<open>lastTickRef\<close>) passed through; \<open>mapUpdate\<close> is the map.
\<close>

definition updateOne ::
  "int \<Rightarrow> int \<Rightarrow> QuestionStatus \<Rightarrow> Question \<Rightarrow> int option \<times> int
     \<Rightarrow> Question \<times> (int option \<times> int)" where
  "updateOne now k newStatus q st =
     (if id_q q \<noteq> k then (q, st)
      else
        let updatedQ = q\<lparr>status := newStatus\<rparr>
        in if newStatus = ACTIVE then (updatedQ, (Some k, now))
           else if newStatus = SKIPPED then (updatedQ\<lparr>wasSkipped := True\<rparr>, (None, snd st))
           else if newStatus = COMPLETED then (updatedQ, (None, snd st))
           else (updatedQ, st))"

fun mapUpdate ::
  "int \<Rightarrow> int \<Rightarrow> QuestionStatus \<Rightarrow> Question list \<Rightarrow> int option \<times> int
     \<Rightarrow> Question list \<times> (int option \<times> int)" where
  "mapUpdate now k newStatus [] st = ([], st)"
| "mapUpdate now k newStatus (q # qs) st =
     (let (q', st') = updateOne now k newStatus q st;
          (qs', st'') = mapUpdate now k newStatus qs st'
      in (q' # qs', st''))"

definition updateQuestionStatus ::
  "int \<Rightarrow> int \<Rightarrow> QuestionStatus \<Rightarrow> AppState \<Rightarrow> AppState" where
  "updateQuestionStatus now k newStatus s =
     (let (qs', (a', t')) =
            mapUpdate now k newStatus (questions s) (activeQuestionId s, lastTickRef s)
      in s\<lparr>questions := qs', activeQuestionId := a', lastTickRef := t'\<rparr>)"

definition handleFinishSession :: "AppState \<Rightarrow> AppState" where
  "handleFinishSession s =
     s\<lparr>activeQuestionId := None, isGlobalPaused := True, view := ANALYTICS\<rparr>"

definition handleRestart :: "AppState \<Rightarrow> AppState" where
  "handleRestart s =
     s\<lparr>view := SETUP, questions := [], activeQuestionId := None, remainingTimeMs := 0,
       isGlobalPaused := False\<rparr>"

text \<open>The handlers given to \<open>GlobalTimerControls\<close>.\<close>

definition onPause :: "AppState \<Rightarrow> AppState" where
  "onPause s = s\<lparr>isGlobalPaused := True\<rparr>"

definition onResume :: "int \<Rightarrow> AppState \<Rightarrow> AppState" where
  "onResume now s = s\<lparr>isGlobalPaused := False, lastTickRef := now\<rparr>"

section \<open>Events of the component\<close>

text \<open>
  One event is one handler call followed by the render it causes. \<open>Tick\<close> is the timer
  firing: the callback runs only while an interval is registered. After the handler,
  React runs the timer effect if one of its dependencies changed. An event carries two
  readings of the clock: \<open>now\<close> for the handler and \<open>nowE\<close> for the effect.
  \<open>OpenTimerControls\<close> and \<open>CloseTimerControls\<close> are the two inline handlers that show
  and hide the overlay of the global timer.
\<close>

datatype event =
    StartSession int AppConfig
  | UpdateStatus int QuestionStatus
  | Pause
  | Resume
  | FinishSession
  | Restart
  | OpenTimerControls
  | CloseTimerControls
  | Tick

definition handler :: "event \<Rightarrow> int \<Rightarrow> AppState \<Rightarrow> AppState" where
  "handler ev now s =
     (case ev of
        StartSession count newConfig \<Rightarrow> handleStartSession count newConfig s
      | UpdateStatus k newStatus \<Rightarrow> updateQuestionStatus now k newStatus s
      | Pause \<Rightarrow> onPause s
      | Resume \<Rightarrow> onResume now s
      | FinishSession \<Rightarrow> handleFinishSession s
      | Restart \<Rightarrow> handleRestart s
      | OpenTimerControls \<Rightarrow> s\<lparr>showGlobalTimerControls := True\<rparr>
      | CloseTimerControls \<Rightarrow> s\<lparr>showGlobalTimerControls := False\<rparr>
      | Tick \<Rightarrow> (if timerIntervalRef s then intervalCallback now s else s))"

definition depsChanged :: "AppState \<Rightarrow> AppState \<Rightarrow> bool" where
  "depsChanged old new =
     (view old \<noteq> view new \<or> isGlobalPaused old \<noteq> isGlobalPaused new
      \<or> activeQuestionId old \<noteq> activeQuestionId new)"

definition step :: "event \<Rightarrow> int \<Rightarrow> int \<Rightarrow> AppState \<Rightarrow> AppState" where
  "step ev now nowE s =
     (let s' = handler ev now s
      in if depsChanged s s' then timerEffect nowE s' else s')"

fun run :: "AppState \<Rightarrow> (event \<times> int \<times> int) list \<Rightarrow> AppState" where
  "run s [] = s"
| "run s ((ev, now, nowE) # es) = run (step ev now nowE s) es"

text \<open>The number of records that have status ACTIVE.\<close>

definition activeCount :: "Question list \<Rightarrow> nat" where
  "activeCount qs = length (filter (\<lambda>q. status q = ACTIVE) qs)"

text \<open>
  The caller's discipline for activation: a transition to ACTIVE on an id is requested
  only when no record with another id is ACTIVE. Other events are not restricted.
\<close>

definition disciplined :: "event \<Rightarrow> AppState \<Rightarrow> bool" where
  "disciplined ev s =
     (case ev of
        UpdateStatus k newStatus \<Rightarrow>
          newStatus \<noteq> ACTIVE \<or> list_all (\<lambda>q. status q \<noteq> ACTIVE \<or> id_q q = k) (questions s)
      | _ \<Rightarrow> True)"

fun disciplinedRun :: "AppState \<Rightarrow> (event \<times> int \<times> int) list \<Rightarrow> bool" where
  "disciplinedRun s [] = True"
| "disciplinedRun s ((ev, now, nowE) # es) =
     (disciplined ev s \<and> disciplinedRun (step ev now nowE s) es)"

text \<open>Events that keep the registry of the running session (no start, no restart).\<close>

fun sessionEvent :: "event \<Rightarrow> bool" where
  "sessionEvent (StartSession count newConfig) = False"
| "sessionEvent Restart = False"
| "sessionEvent ev = True"

text \<open>The invariant of a disciplined run: ids are unique and at most one record is ACTIVE.\<close>

definition oneActive :: "AppState \<Rightarrow> bool" where
  "oneActive s = (distinct (map id_q (questions s)) \<and> activeCount (questions s) \<le> 1)"

text \<open>An interval is registered exactly when the tracker view is shown and not paused.\<close>

definition timerConsistent :: "AppState \<Rightarrow> bool" where
  "timerConsistent s = (timerIntervalRef s = (view s = TRACKER \<and> \<not> isGlobalPaused s))"

text \<open>The timer firing at each of a list of instants.\<close>

definition ticksAt :: "(int \<times> int) list \<Rightarrow> (event \<times> int \<times> int) list" where
  "ticksAt ts = map (\<lambda>(t, tE). (Tick, t, tE)) ts"

section \<open>Scenarios\<close>

text \<open>The configuration of the scenarios of the specification: two minutes per question.\<close>

definition idealTwoConfig :: AppConfig where
  "idealTwoConfig = DEFAULT_CONFIG\<lparr>idealTimePerQuestionMin := 2\<rparr>"

text \<open>A session of three questions, started at time 0.\<close>

definition startedThree :: AppState where
  "startedThree = run initialApp [(StartSession 3 idealTwoConfig, 0, 0)]"

text \<open>Question 1 is started, then question 2 is started while question 1 is ACTIVE.\<close>

definition twoStarted :: AppState where
  "twoStarted =
     run startedThree [(UpdateStatus 1 ACTIVE, 10, 10), (UpdateStatus 2 ACTIVE, 20, 20)]"

text \<open>Question 1 is started and paused, then question 2 is started.\<close>

definition pausedThenOther :: AppState where
  "pausedThenOther =
     run startedThree
       [(UpdateStatus 1 ACTIVE, 10, 10), (Tick, 110, 110), (UpdateStatus 1 PAUSED, 120, 120),
        (UpdateStatus 2 ACTIVE, 130, 130)]"

text \<open>
  Question 1 is ACTIVE for 1000 ms (two ticks), then skipped; one tick passes while it is
  SKIPPED.
\<close>

definition skippedOne :: AppState where
  "skippedOne =
     run startedThree
       [(UpdateStatus 1 ACTIVE, 0, 0), (Tick, 400, 400), (Tick, 1000, 1000),
        (UpdateStatus 1 SKIPPED, 1000, 1000), (Tick, 1500, 1500)]"

text \<open>Then it is resumed, ACTIVE for another 2000 ms, and completed; one more tick passes.\<close>

definition resumedCompletedOne :: AppState where
  "resumedCompletedOne =
     run skippedOne
       [(UpdateStatus 1 ACTIVE, 1500, 1500), (Tick, 2500, 2500), (Tick, 3500, 3500),
        (UpdateStatus 1 COMPLETED, 3500, 3500), (Tick, 3600, 3600)]"


text \<open>Question 1 is ACTIVE for 300 ms, then the global clock is paused.\<close>

definition pausedWhileActive :: AppState where
  "pausedWhileActive =
     run initialApp
       [(StartSession 3 idealTwoConfig, 0, 0), (UpdateStatus 1 ACTIVE, 0, 0),
        (Tick, 300, 300), (Pause, 350, 350)]"

text \<open>Question 1 is ACTIVE for 300 ms and the clock is running.\<close>

definition activeRunning :: AppState where
  "activeRunning =
     run initialApp
       [(StartSession 3 idealTwoConfig, 0, 0), (UpdateStatus 1 ACTIVE, 0, 0),
        (Tick, 300, 300)]"

section \<open>Properties of the rounding\<close>

text \<open>Whole numbers below \<open>2^53\<close> are binary64 values, and their products are exact.\<close>

lemma roundHalfEven_of_int: "roundHalfEven (of_int m) = m"
  by (simp add: roundHalfEven_def)

lemma ulpDown_power: "\<exists>j. ulpDown n x u = u / 2 ^ j"
proof (induction n arbitrary: u)
  case 0
  have "ulpDown 0 x u = u / 2 ^ 0" by simp
  then show ?case by blast
next
  case (Suc n)
  show ?case
  proof (cases "\<bar>x\<bar> / u < 2 ^ 52")
    case True
    from Suc.IH [of "u / 2"] obtain j where "ulpDown n x (u / 2) = u / 2 / 2 ^ j" by blast
    with True have "ulpDown (Suc n) x u = u / 2 ^ Suc j" by simp
    then show ?thesis by blast
  next
    case False
    then have "ulpDown (Suc n) x u = u / 2 ^ 0" by simp
    then show ?thesis by blast
  qed
qed

lemma roundToDouble_of_int:
  assumes "\<bar>k\<bar> < 2 ^ 53"
  shows "roundToDouble (of_int k) = of_int k"
proof -
  from assms have "(of_int \<bar>k\<bar> :: rat) < of_int (2 ^ 53)"
    by (simp only: of_int_less_iff)
  then have "\<not> 2 ^ 53 \<le> \<bar>of_int k :: rat\<bar>"
    by simp
  then have u: "ulp (of_int k) = ulpDown 1074 (of_int k) 1"
    by (simp only: ulp_def if_False)
  from ulpDown_power [of 1074 "of_int k" 1] obtain j
    where j: "ulpDown 1074 (of_int k) 1 = 1 / 2 ^ j" by blast
  have "of_int k / (1 / 2 ^ j) = (of_int (k * 2 ^ j) :: rat)"
    by simp
  then have "roundHalfEven (of_int k / (1 / 2 ^ j)) = k * 2 ^ j"
    by (simp only: roundHalfEven_of_int)
  then show ?thesis
    by (simp add: roundToDouble_def u j)
qed

lemma jsMul_whole:
  assumes "\<bar>a * b\<bar> < 2 ^ 53"
  shows "jsMul (of_int a) (of_int b) = of_int (a * b)"
  using roundToDouble_of_int [OF assms] by (simp add: jsMul_def)

lemma budget_whole:
  assumes "\<bar>n * a * 60000\<bar> < 2 ^ 53"
  shows "\<lfloor>jsMul (jsMul (jsMul (of_int n) (of_int a)) 60) 1000\<rfloor> = n * a * 60000"
proof -
  define m where "m = \<bar>n * a\<bar>"
  have m0: "0 \<le> m" by (simp add: m_def)
  have "\<bar>n * a * 60000\<bar> = m * 60000" by (simp add: m_def abs_mult)
  with assms have m1: "m * 60000 < 9007199254740992" by simp
  have "\<bar>n * a * 60\<bar> = m * 60" "\<bar>n * a * 60 * 1000\<bar> = m * 60000"
    by (simp_all add: m_def abs_mult)
  with m0 m1 have b2: "\<bar>n * a * 60\<bar> < 2 ^ 53" and b3: "\<bar>n * a * 60 * 1000\<bar> < 2 ^ 53"
    by simp_all
  from m0 m1 have b1: "\<bar>n * a\<bar> < 2 ^ 53"
    unfolding m_def [symmetric] by simp
  have "jsMul (of_int n) (of_int a) = of_int (n * a)"
    using b1 by (rule jsMul_whole)
  moreover have "jsMul (of_int (n * a)) (of_int 60) = of_int (n * a * 60)"
    using b2 by (rule jsMul_whole)
  moreover have "jsMul (of_int (n * a * 60)) (of_int 1000) = of_int (n * a * 60 * 1000)"
    using b3 by (rule jsMul_whole)
  ultimately have "jsMul (jsMul (jsMul (of_int n) (of_int a)) 60) 1000
                     = of_int (n * a * 60000)"
    by simp
  then show ?thesis
    by (simp only: floor_of_int)
qed








section \<open>The budget and the states of the scenarios\<close>











text \<open>
  The state after the start of the three-question session, and the scenarios that begin
  with that start, as code equations: the scenarios are evaluated from this state.
\<close>

lemma budget_three_two: "\<lfloor>jsMul (jsMul (jsMul 3 2) 60) 1000\<rfloor> = 360000"
  using budget_whole [of 3 2] by simp

lemma idealTwoConfig_closed [code]:
  "idealTwoConfig =
     \<lparr>range1Limit = 2, range2Lower = 2, range2Upper = 3, range3Limit = 3,
      longQuestionThresholdMin = 7 / 2, idealTimePerQuestionMin = 2, subject = None\<rparr>"
  by (simp add: idealTwoConfig_def DEFAULT_CONFIG_def)

lemma startSession_three_two:
  "handleStartSession 3 idealTwoConfig s =
     s\<lparr>config := idealTwoConfig,
       questions :=
         [\<lparr>id_q = 1, status = NOT_STARTED, timeSpentMs = 0, wasSkipped = False\<rparr>,
          \<lparr>id_q = 2, status = NOT_STARTED, timeSpentMs = 0, wasSkipped = False\<rparr>,
          \<lparr>id_q = 3, status = NOT_STARTED, timeSpentMs = 0, wasSkipped = False\<rparr>],
       totalAllocatedTimeMs := 360000, remainingTimeMs := 360000,
       isGlobalPaused := False, view := TRACKER\<rparr>"
proof -
  have l: "[0..<3] = [0, 1, 2::nat]" by code_simp
  have c: "idealTimePerQuestionMin idealTwoConfig = 2"
    by (simp add: idealTwoConfig_def)
  show ?thesis
    by (simp add: handleStartSession_def Let_def l c budget_three_two)
qed

lemma startedThree_closed [code]:
  "startedThree =
     \<lparr>view = TRACKER,
      questions =
        [\<lparr>id_q = 1, status = NOT_STARTED, timeSpentMs = 0, wasSkipped = False\<rparr>,
         \<lparr>id_q = 2, status = NOT_STARTED, timeSpentMs = 0, wasSkipped = False\<rparr>,
         \<lparr>id_q = 3, status = NOT_STARTED, timeSpentMs = 0, wasSkipped = False\<rparr>],
      activeQuestionId = None, config = idealTwoConfig,
      totalAllocatedTimeMs = 360000, remainingTimeMs = 360000, isGlobalPaused = False,
      showGlobalTimerControls = False, timerIntervalRef = True, lastTickRef = 0\<rparr>"
  by (simp add: startedThree_def step_def handler_def startSession_three_two depsChanged_def
        timerEffect_def timerCleanup_def initialApp_def Let_def)

lemma startedThree_step:
  "step (StartSession 3 idealTwoConfig) 0 0 initialApp = startedThree"
  by (simp add: startedThree_def)

lemma pausedWhileActive_code [code]:
  "pausedWhileActive =
     run startedThree [(UpdateStatus 1 ACTIVE, 0, 0), (Tick, 300, 300), (Pause, 350, 350)]"
  by (simp add: pausedWhileActive_def startedThree_def)

lemma activeRunning_code [code]:
  "activeRunning = run startedThree [(UpdateStatus 1 ACTIVE, 0, 0), (Tick, 300, 300)]"
  by (simp add: activeRunning_def startedThree_def)

section \<open>The status update as a map\<close>

lemma updateOne_fst:
  "fst (updateOne now k ns q st) =
     (if id_q q = k
      then (if ns = SKIPPED then q\<lparr>status := ns, wasSkipped := True\<rparr> else q\<lparr>status := ns\<rparr>)
      else q)"
  by (simp add: updateOne_def Let_def)

lemma updateOne_snd:
  "snd (updateOne now k ns q st) =
     (if id_q q = k
      then (if ns = ACTIVE then (Some k, now)
            else if ns = SKIPPED \<or> ns = COMPLETED then (None, snd st) else st)
      else st)"
  by (simp add: updateOne_def Let_def)

lemma mapUpdate_fst:
  "fst (mapUpdate now k ns qs st) = map (\<lambda>q. fst (updateOne now k ns q st)) qs"
proof (induction qs arbitrary: st)
  case Nil
  show ?case by simp
next
  case (Cons q qs)
  have indep: "\<And>x a b. fst (updateOne now k ns x a) = fst (updateOne now k ns x b)"
    by (simp add: updateOne_fst)
  have "fst (mapUpdate now k ns (q # qs) st) =
          fst (updateOne now k ns q st)
            # fst (mapUpdate now k ns qs (snd (updateOne now k ns q st)))"
    by (simp add: split_beta Let_def)
  also have "\<dots> = fst (updateOne now k ns q st)
                 # map (\<lambda>x. fst (updateOne now k ns x (snd (updateOne now k ns q st)))) qs"
    by (simp only: Cons.IH)
  also have "\<dots> = map (\<lambda>x. fst (updateOne now k ns x st)) (q # qs)"
    using indep by (simp cong: map_cong)
  finally show ?case .
qed

lemma mapUpdate_snd_absent:
  "\<forall>q \<in> set qs. id_q q \<noteq> k \<Longrightarrow> snd (mapUpdate now k ns qs st) = st"
  by (induction qs arbitrary: st) (simp_all add: split_beta Let_def updateOne_snd)

lemma mapUpdate_snd_present:
  "\<exists>q \<in> set qs. id_q q = k \<Longrightarrow>
   snd (mapUpdate now k ns qs st) =
     (if ns = ACTIVE then (Some k, now)
      else if ns = SKIPPED \<or> ns = COMPLETED then (None, snd st) else st)"
proof (induction qs arbitrary: st)
  case Nil
  then show ?case by simp
next
  case (Cons q qs)
  have unfold: "snd (mapUpdate now k ns (q # qs) st) =
                  snd (mapUpdate now k ns qs (snd (updateOne now k ns q st)))"
    by (simp add: split_beta Let_def)
  show ?case
  proof (cases "\<exists>x \<in> set qs. id_q x = k")
    case True
    show ?thesis
      by (subst unfold) (simp add: Cons.IH [OF True] updateOne_snd)
  next
    case False
    with Cons.prems have here: "id_q q = k" by auto
    from False have "\<forall>x \<in> set qs. id_q x \<noteq> k" by blast
    then show ?thesis
      by (subst unfold) (simp add: mapUpdate_snd_absent updateOne_snd here)
  qed
qed

lemma updateQuestionStatus_questions:
  "questions (updateQuestionStatus now k ns s) =
     map (\<lambda>q. fst (updateOne now k ns q (activeQuestionId s, lastTickRef s))) (questions s)"
  using mapUpdate_fst [of now k ns "questions s" "(activeQuestionId s, lastTickRef s)"]
  by (simp add: updateQuestionStatus_def split_beta)

lemma updateQuestionStatus_clock:
  "(activeQuestionId (updateQuestionStatus now k ns s),
    lastTickRef (updateQuestionStatus now k ns s)) =
     snd (mapUpdate now k ns (questions s) (activeQuestionId s, lastTickRef s))"
  by (simp add: updateQuestionStatus_def split_beta)

lemma updateQuestionStatus_frame:
  "view (updateQuestionStatus now k ns s) = view s"
  "isGlobalPaused (updateQuestionStatus now k ns s) = isGlobalPaused s"
  "remainingTimeMs (updateQuestionStatus now k ns s) = remainingTimeMs s"
  "totalAllocatedTimeMs (updateQuestionStatus now k ns s) = totalAllocatedTimeMs s"
  "timerIntervalRef (updateQuestionStatus now k ns s) = timerIntervalRef s"
  by (simp_all add: updateQuestionStatus_def split_beta)

lemma updateQuestionStatus_absent:
  assumes "\<forall>q \<in> set (questions s). id_q q \<noteq> k"
  shows "updateQuestionStatus now k ns s = s"
proof -
  have q: "fst (mapUpdate now k ns (questions s) (activeQuestionId s, lastTickRef s))
             = questions s"
    using assms by (simp add: mapUpdate_fst updateOne_fst cong: map_cong)
  have c: "snd (mapUpdate now k ns (questions s) (activeQuestionId s, lastTickRef s))
             = (activeQuestionId s, lastTickRef s)"
    using assms by (rule mapUpdate_snd_absent)
  show ?thesis
    by (simp add: updateQuestionStatus_def split_beta q c)
qed

section \<open>What the timer effect and an event leave alone\<close>

lemma timerEffect_frame:
  "view (timerEffect t s) = view s"
  "questions (timerEffect t s) = questions s"
  "activeQuestionId (timerEffect t s) = activeQuestionId s"
  "isGlobalPaused (timerEffect t s) = isGlobalPaused s"
  "remainingTimeMs (timerEffect t s) = remainingTimeMs s"
  "totalAllocatedTimeMs (timerEffect t s) = totalAllocatedTimeMs s"
  by (simp_all add: timerEffect_def timerCleanup_def Let_def)

lemma timerEffect_interval:
  "timerIntervalRef (timerEffect t s) = (view s = TRACKER \<and> \<not> isGlobalPaused s)"
  by (simp add: timerEffect_def timerCleanup_def Let_def)

lemma timerEffect_lastTick:
  "lastTickRef (timerEffect t s) =
     (if view s = TRACKER \<and> \<not> isGlobalPaused s then t else lastTickRef s)"
  by (auto simp add: timerEffect_def timerCleanup_def Let_def)

lemma step_frame:
  "view (step ev now nowE s) = view (handler ev now s)"
  "questions (step ev now nowE s) = questions (handler ev now s)"
  "activeQuestionId (step ev now nowE s) = activeQuestionId (handler ev now s)"
  "isGlobalPaused (step ev now nowE s) = isGlobalPaused (handler ev now s)"
  "remainingTimeMs (step ev now nowE s) = remainingTimeMs (handler ev now s)"
  "totalAllocatedTimeMs (step ev now nowE s) = totalAllocatedTimeMs (handler ev now s)"
  by (simp_all add: step_def Let_def timerEffect_frame)

section \<open>One tick\<close>

lemma intervalCallback_frame:
  "remainingTimeMs (intervalCallback now s) = remainingTimeMs s - (now - lastTickRef s)"
  "lastTickRef (intervalCallback now s) = now"
  "activeQuestionId (intervalCallback now s) = activeQuestionId s"
  "view (intervalCallback now s) = view s"
  "isGlobalPaused (intervalCallback now s) = isGlobalPaused s"
  "timerIntervalRef (intervalCallback now s) = timerIntervalRef s"
  "totalAllocatedTimeMs (intervalCallback now s) = totalAllocatedTimeMs s"
  by (simp_all add: intervalCallback_def Let_def split: option.splits)

lemma intervalCallback_questions:
  "questions (intervalCallback now s) =
     map (\<lambda>q. if activeQuestionId s = Some (id_q q) \<and> status q = ACTIVE
              then q\<lparr>timeSpentMs := timeSpentMs q + (now - lastTickRef s)\<rparr> else q)
         (questions s)"
  by (auto simp add: intervalCallback_def Let_def map_idI split: option.splits)

lemma step_Tick:
  "step Tick now nowE s = (if timerIntervalRef s then intervalCallback now s else s)"
  by (simp add: step_def handler_def depsChanged_def Let_def intervalCallback_frame)

section \<open>Ids and statuses along a run\<close>

lemma handler_sessionEvent_ids:
  "sessionEvent ev \<Longrightarrow> map id_q (questions (handler ev now s)) = map id_q (questions s)"
  by (cases ev)
     (simp_all add: handler_def onPause_def onResume_def handleFinishSession_def
        updateQuestionStatus_questions updateOne_fst intervalCallback_questions o_def
        cong: map_cong)

lemma handleStartSession_ids:
  "map id_q (questions (handleStartSession n cfg s)) = [1..n]"
proof (rule nth_equalityI)
  show "length (map id_q (questions (handleStartSession n cfg s))) = length [1..n]"
    by (simp add: handleStartSession_def Let_def)
next
  fix i
  assume "i < length (map id_q (questions (handleStartSession n cfg s)))"
  then have i: "i < nat n"
    by (simp add: handleStartSession_def Let_def)
  then have "1 + int i \<le> n" by linarith
  then have "[1..n] ! i = 1 + int i" by (rule nth_upto)
  with i show "map id_q (questions (handleStartSession n cfg s)) ! i = [1..n] ! i"
    by (simp add: handleStartSession_def Let_def)
qed

lemma handleStartSession_fresh:
  "list_all (\<lambda>q. status q = NOT_STARTED \<and> timeSpentMs q = 0 \<and> \<not> wasSkipped q)
     (questions (handleStartSession n cfg s))"
  by (simp add: handleStartSession_def Let_def list_all_iff)

lemma count_id_le_one:
  "distinct (map id_q qs) \<Longrightarrow> length (filter (\<lambda>q. id_q q = k) qs) \<le> 1"
proof (induction qs)
  case Nil
  show ?case by simp
next
  case (Cons q qs)
  show ?case
  proof (cases "id_q q = k")
    case True
    from Cons.prems have "id_q q \<notin> id_q ` set qs" by simp
    with True have "\<forall>x \<in> set qs. id_q x \<noteq> k" by blast
    then have "filter (\<lambda>x. id_q x = k) qs = []" by (simp add: filter_empty_conv)
    with True show ?thesis by simp
  next
    case False
    with Cons show ?thesis by simp
  qed
qed

lemma length_filter_conj_le:
  "length (filter (\<lambda>x. P x \<and> Q x) xs) \<le> length (filter Q xs)"
  by (induction xs) auto

lemma activeCount_update_other:
  assumes "ns \<noteq> ACTIVE"
  shows "activeCount (map (\<lambda>q. fst (updateOne now k ns q st)) qs) \<le> activeCount qs"
proof -
  have "filter ((\<lambda>q. status q = ACTIVE) \<circ> (\<lambda>q. fst (updateOne now k ns q st))) qs
          = filter (\<lambda>q. id_q q \<noteq> k \<and> status q = ACTIVE) qs"
    using assms by (intro filter_cong) (auto simp add: updateOne_fst)
  then show ?thesis
    by (simp add: activeCount_def filter_map length_filter_conj_le)
qed

lemma activeCount_update_active:
  assumes "list_all (\<lambda>q. status q \<noteq> ACTIVE \<or> id_q q = k) qs"
    and "distinct (map id_q qs)"
  shows "activeCount (map (\<lambda>q. fst (updateOne now k ACTIVE q st)) qs) \<le> 1"
proof -
  have "filter ((\<lambda>q. status q = ACTIVE) \<circ> (\<lambda>q. fst (updateOne now k ACTIVE q st))) qs
          = filter (\<lambda>q. id_q q = k) qs"
    using assms(1) by (intro filter_cong) (auto simp add: updateOne_fst list_all_iff)
  then show ?thesis
    using count_id_le_one [OF assms(2), of k]
    by (simp add: activeCount_def filter_map)
qed

lemma activeCount_tick:
  "activeCount (questions (intervalCallback now s)) = activeCount (questions s)"
proof -
  have "filter ((\<lambda>q. status q = ACTIVE)
          \<circ> (\<lambda>q. if activeQuestionId s = Some (id_q q) \<and> status q = ACTIVE
                   then q\<lparr>timeSpentMs := timeSpentMs q + (now - lastTickRef s)\<rparr> else q))
          (questions s)
        = filter (\<lambda>q. status q = ACTIVE) (questions s)"
    by (intro filter_cong) auto
  then show ?thesis
    by (simp add: activeCount_def intervalCallback_questions filter_map)
qed

lemma oneActive_step:
  assumes "oneActive s" and "disciplined ev s"
  shows "oneActive (step ev now nowE s)"
proof (cases ev)
  case (StartSession n cfg)
  have "activeCount (questions (handleStartSession n cfg s)) = 0"
    using handleStartSession_fresh [of n cfg s]
    by (auto simp add: activeCount_def list_all_iff filter_empty_conv)
  then show ?thesis
    by (simp add: oneActive_def step_frame StartSession handler_def handleStartSession_ids)
next
  case (UpdateStatus k ns)
  have ids: "map id_q (questions (handler ev now s)) = map id_q (questions s)"
    by (rule handler_sessionEvent_ids) (simp add: UpdateStatus)
  have "activeCount (questions (updateQuestionStatus now k ns s)) \<le> 1"
  proof (cases "ns = ACTIVE")
    case True
    with assms(2) have d: "list_all (\<lambda>q. status q \<noteq> ACTIVE \<or> id_q q = k) (questions s)"
      by (simp add: disciplined_def UpdateStatus)
    from assms(1) have "distinct (map id_q (questions s))"
      by (simp add: oneActive_def)
    from activeCount_update_active [OF d this] show ?thesis
      by (simp only: True updateQuestionStatus_questions)
  next
    case False
    from activeCount_update_other [OF False, of now k "(activeQuestionId s, lastTickRef s)" "questions s"]
      assms(1)
    show ?thesis
      by (simp add: updateQuestionStatus_questions oneActive_def)
  qed
  with ids assms(1) show ?thesis
    by (simp add: oneActive_def step_frame UpdateStatus handler_def)
next
  case Pause
  with assms(1) show ?thesis
    by (simp add: oneActive_def step_frame handler_def onPause_def)
next
  case Resume
  with assms(1) show ?thesis
    by (simp add: oneActive_def step_frame handler_def onResume_def)
next
  case FinishSession
  with assms(1) show ?thesis
    by (simp add: oneActive_def step_frame handler_def handleFinishSession_def)
next
  case Restart
  then show ?thesis
    by (simp add: oneActive_def step_frame handler_def handleRestart_def activeCount_def)
next
  case OpenTimerControls
  with assms(1) show ?thesis
    by (simp add: oneActive_def step_frame handler_def)
next
  case CloseTimerControls
  with assms(1) show ?thesis
    by (simp add: oneActive_def step_frame handler_def)
next
  case Tick
  have ids: "map id_q (questions (handler ev now s)) = map id_q (questions s)"
    by (rule handler_sessionEvent_ids) (simp add: Tick)
  with assms(1) show ?thesis
    by (simp add: oneActive_def step_frame Tick handler_def activeCount_tick)
qed

lemma oneActive_run:
  "oneActive s \<Longrightarrow> disciplinedRun s es \<Longrightarrow> oneActive (run s es)"
proof (induction es arbitrary: s)
  case Nil
  then show ?case by simp
next
  case (Cons e es)
  obtain ev now nowE where e: "e = (ev, now, nowE)" by (cases e) auto
  from Cons.prems have "oneActive (step ev now nowE s)" "disciplinedRun (step ev now nowE s) es"
    by (simp_all add: e oneActive_step)
  then show ?case
    by (simp add: e Cons.IH)
qed

section \<open>The interval along a run\<close>

lemma handler_interval:
  "timerIntervalRef (handler ev now s) = timerIntervalRef s"
  by (cases ev)
     (simp_all add: handler_def handleStartSession_def Let_def updateQuestionStatus_frame
        onPause_def onResume_def handleFinishSession_def handleRestart_def
        intervalCallback_frame)

lemma timerConsistent_step:
  assumes "timerConsistent s"
  shows "timerConsistent (step ev now nowE s)"
proof (cases "depsChanged s (handler ev now s)")
  case True
  then have "step ev now nowE s = timerEffect nowE (handler ev now s)"
    by (simp add: step_def Let_def)
  then show ?thesis
    by (simp add: timerConsistent_def timerEffect_interval timerEffect_frame)
next
  case False
  then have same: "step ev now nowE s = handler ev now s"
    by (simp add: step_def Let_def)
  from False have "view (handler ev now s) = view s"
    "isGlobalPaused (handler ev now s) = isGlobalPaused s"
    by (simp_all add: depsChanged_def)
  with assms show ?thesis
    by (simp add: timerConsistent_def same handler_interval)
qed

lemma timerConsistent_run:
  "timerConsistent s \<Longrightarrow> timerConsistent (run s es)"
proof (induction es arbitrary: s)
  case Nil
  then show ?case by simp
next
  case (Cons e es)
  obtain ev now nowE where e: "e = (ev, now, nowE)" by (cases e) auto
  from Cons.prems have "timerConsistent (step ev now nowE s)"
    by (rule timerConsistent_step)
  then show ?case
    by (simp add: e Cons.IH)
qed

lemma run_append: "run s (xs @ ys) = run (run s xs) ys"
  by (induction xs arbitrary: s) auto

lemma run_ticks_idle:
  "\<not> timerIntervalRef s \<Longrightarrow> run s (ticksAt ts) = s"
  by (induction ts) (auto simp add: ticksAt_def step_Tick)

section \<open>The skip flag along a run\<close>

lemma handler_sessionEvent_wasSkipped:
  assumes "sessionEvent ev" and "i < length (questions s)" and "wasSkipped (questions s ! i)"
  shows "wasSkipped (questions (handler ev now s) ! i)"
  using assms
  by (cases ev)
     (simp_all add: handler_def onPause_def onResume_def handleFinishSession_def
        updateQuestionStatus_questions updateOne_fst intervalCallback_questions)

lemma handler_sessionEvent_length:
  "sessionEvent ev \<Longrightarrow> length (questions (handler ev now s)) = length (questions s)"
  using handler_sessionEvent_ids [of ev now s] by (metis length_map)

lemma run_sessionEvents_wasSkipped:
  assumes "list_all sessionEvent (map fst es)"
    and "i < length (questions s)" and "wasSkipped (questions s ! i)"
  shows "length (questions (run s es)) = length (questions s)
         \<and> id_q (questions (run s es) ! i) = id_q (questions s ! i)
         \<and> wasSkipped (questions (run s es) ! i)"
  using assms
proof (induction es arbitrary: s)
  case Nil
  then show ?case by simp
next
  case (Cons e es)
  obtain ev now nowE where e: "e = (ev, now, nowE)" by (cases e) auto
  let ?s' = "step ev now nowE s"
  from Cons.prems(1) have ev: "sessionEvent ev" and rest: "list_all sessionEvent (map fst es)"
    by (simp_all add: e)
  have len: "length (questions ?s') = length (questions s)"
    by (simp add: step_frame handler_sessionEvent_length [OF ev])
  have "map id_q (questions ?s') = map id_q (questions s)"
    by (simp add: step_frame handler_sessionEvent_ids [OF ev])
  then have "map id_q (questions ?s') ! i = map id_q (questions s) ! i" by simp
  with Cons.prems(2) len have idq: "id_q (questions ?s' ! i) = id_q (questions s ! i)"
    by simp
  have ws: "wasSkipped (questions ?s' ! i)"
    using handler_sessionEvent_wasSkipped [OF ev Cons.prems(2) Cons.prems(3)]
    by (simp add: step_frame)
  from Cons.prems(2) len have "i < length (questions ?s')" by simp
  from Cons.IH [OF rest this ws] len idq show ?case
    by (simp add: e)
qed

section \<open>Claims\<close>

text \<open>
  C8. A status-transition request whose id identifies no record of the registry is a
  no-op: the handler returns the state it was given, so every record and the clock state
  (\<open>activeQuestionId\<close>, \<open>lastTickRef\<close>) are unchanged, and the render that follows
  does not run the timer effect.
\<close>

theorem updateQuestionStatus_unknown_id_noop:
  assumes "k \<notin> id_q ` set (questions s)"
  shows "updateQuestionStatus now k newStatus s = s
         \<and> step (UpdateStatus k newStatus) now nowE s = s"
proof -
  from assms have "\<forall>q \<in> set (questions s). id_q q \<noteq> k" by auto
  from updateQuestionStatus_absent [OF this] show ?thesis
    by (simp add: step_def handler_def depsChanged_def Let_def)
qed

theorem updateQuestionStatus_unknown_id_noop_witness:
  "map id_q (questions pausedThenOther) = [1, 2, 3]
   \<and> updateQuestionStatus 200 7 ACTIVE pausedThenOther = pausedThenOther
   \<and> step (UpdateStatus 7 ACTIVE) 200 205 pausedThenOther = pausedThenOther"
proof -
  have ids: "map id_q (questions pausedThenOther) = [1, 2, 3]"
    by code_simp
  then have "(7::int) \<notin> id_q ` set (questions pausedThenOther)"
    by (simp flip: set_map)
  from updateQuestionStatus_unknown_id_noop [OF this] ids show ?thesis
    by simp
qed

text \<open>
  C2, as the claim states it, fails: question 1 is PAUSED, question 2 is ACTIVE and is the
  \<open>activeQuestionId\<close>; completing question 1 clears \<open>activeQuestionId\<close> although the
  transitioned record is not the currently active one.
\<close>

theorem skip_complete_clears_active_counterexample:
  "activeQuestionId pausedThenOther = Some 2
   \<and> id_q (questions pausedThenOther ! 0) = 1
   \<and> status (questions pausedThenOther ! 0) = PAUSED
   \<and> activeQuestionId (step (UpdateStatus 1 COMPLETED) 140 140 pausedThenOther) = None
   \<and> activeQuestionId (step (UpdateStatus 1 COMPLETED) 140 140 pausedThenOther)
       \<noteq> activeQuestionId pausedThenOther"
  by code_simp

text \<open>
  C2, amended. A status transition with newStatus SKIPPED or COMPLETED on an existing
  record clears \<open>activeQuestionId\<close> to null, whether or not the id of the record was the
  current \<open>activeQuestionId\<close>.
\<close>

theorem skip_complete_clears_active:
  assumes "k \<in> id_q ` set (questions s)"
    and "newStatus = SKIPPED \<or> newStatus = COMPLETED"
  shows "activeQuestionId (updateQuestionStatus now k newStatus s) = None
         \<and> activeQuestionId (step (UpdateStatus k newStatus) now nowE s) = None"
proof -
  from assms(1) have ex: "\<exists>q \<in> set (questions s). id_q q = k" by auto
  have "(activeQuestionId (updateQuestionStatus now k newStatus s),
         lastTickRef (updateQuestionStatus now k newStatus s)) = (None, lastTickRef s)"
    using assms(2) by (auto simp add: updateQuestionStatus_clock mapUpdate_snd_present [OF ex])
  then have "activeQuestionId (updateQuestionStatus now k newStatus s) = None" by simp
  then show ?thesis
    by (simp add: step_frame handler_def)
qed

theorem skip_complete_clears_active_witness:
  "map id_q (questions pausedThenOther) = [1, 2, 3]
   \<and> activeQuestionId (updateQuestionStatus 140 1 SKIPPED pausedThenOther) = None
   \<and> activeQuestionId (step (UpdateStatus 1 SKIPPED) 140 141 pausedThenOther) = None"
proof -
  have ids: "map id_q (questions pausedThenOther) = [1, 2, 3]"
    by code_simp
  then have "(1::int) \<in> id_q ` set (questions pausedThenOther)"
    by (simp flip: set_map)
  from skip_complete_clears_active [OF this, of SKIPPED] ids show ?thesis
    by simp
qed

text \<open>
  C3. A tick with measured delta \<open>D = now - lastTickRef\<close> decreases \<open>remainingTimeMs\<close>
  by exactly \<open>D\<close>, with no lower bound. The record at any position \<open>i\<close> gains exactly
  \<open>D\<close> when its id is the \<open>activeQuestionId\<close> and its status is ACTIVE, and keeps its
  \<open>timeSpentMs\<close> otherwise; its other fields are kept. When no record linked by
  \<open>activeQuestionId\<close> is ACTIVE, the registry is unchanged.
\<close>

theorem tick_charges_linked_active_record_only:
  assumes "timerIntervalRef s" and "i < length (questions s)"
  shows "remainingTimeMs (step Tick now nowE s) = remainingTimeMs s - (now - lastTickRef s)
    \<and> length (questions (step Tick now nowE s)) = length (questions s)
    \<and> timeSpentMs (questions (step Tick now nowE s) ! i) =
        timeSpentMs (questions s ! i)
          + (if activeQuestionId s = Some (id_q (questions s ! i))
                \<and> status (questions s ! i) = ACTIVE
             then now - lastTickRef s else 0)
    \<and> id_q (questions (step Tick now nowE s) ! i) = id_q (questions s ! i)
    \<and> status (questions (step Tick now nowE s) ! i) = status (questions s ! i)
    \<and> wasSkipped (questions (step Tick now nowE s) ! i) = wasSkipped (questions s ! i)
    \<and> (list_all (\<lambda>q. activeQuestionId s = Some (id_q q) \<longrightarrow> status q \<noteq> ACTIVE)
          (questions s)
        \<longrightarrow> questions (step Tick now nowE s) = questions s)"
proof -
  have st: "step Tick now nowE s = intervalCallback now s"
    using assms(1) by (simp add: step_Tick)
  have stale:
    "list_all (\<lambda>q. activeQuestionId s = Some (id_q q) \<longrightarrow> status q \<noteq> ACTIVE) (questions s)
       \<Longrightarrow> questions (intervalCallback now s) = questions s"
    by (auto simp add: intervalCallback_questions list_all_iff intro!: map_idI)
  show ?thesis
    unfolding st using assms(2) stale
    by (simp add: intervalCallback_frame intervalCallback_questions)
qed

theorem tick_charges_linked_active_record_only_witness:
  "timerIntervalRef pausedThenOther \<and> (1::nat) < length (questions pausedThenOther)
   \<and> remainingTimeMs (step Tick 230 230 pausedThenOther) = 359800
   \<and> map timeSpentMs (questions pausedThenOther) = [100, 0, 0]
   \<and> timeSpentMs (questions (step Tick 230 230 pausedThenOther) ! 1) = 100"
proof -
  have h1: "timerIntervalRef pausedThenOther" by code_simp
  have h2: "(1::nat) < length (questions pausedThenOther)" by code_simp
  have v: "remainingTimeMs pausedThenOther = 359900" "lastTickRef pausedThenOther = 130"
     "activeQuestionId pausedThenOther = Some 2"
     "id_q (questions pausedThenOther ! 1) = 2" "status (questions pausedThenOther ! 1) = ACTIVE"
     "map timeSpentMs (questions pausedThenOther) = [100, 0, 0]"
    by code_simp+
  have t: "timeSpentMs (questions pausedThenOther ! 1) = 0" by code_simp
  from tick_charges_linked_active_record_only [OF h1 h2, of 230 230] h1 h2 v t show ?thesis
    by simp
qed

text \<open>
  C1, as the claim states it, fails: with question 1 ACTIVE, the transition of question 2
  to ACTIVE leaves both records ACTIVE. The transition does not demote a sibling.
\<close>

theorem two_active_counterexample:
  "activeCount (questions (run startedThree [(UpdateStatus 1 ACTIVE, 10, 10)])) = 1
   \<and> twoStarted = step (UpdateStatus 2 ACTIVE) 20 20
                     (run startedThree [(UpdateStatus 1 ACTIVE, 10, 10)])
   \<and> status (questions twoStarted ! 0) = ACTIVE
   \<and> status (questions twoStarted ! 1) = ACTIVE
   \<and> activeCount (questions twoStarted) = 2
   \<and> \<not> activeCount (questions twoStarted) \<le> 1"
  by code_simp

text \<open>
  C1, amended. In every state reached from the initial state by a run of events in which
  each transition to ACTIVE on an id is requested only when no record with another id is
  ACTIVE (the caller's contract), at most one record of the registry has status ACTIVE.
  Starts, restarts, ticks, pauses, resumes and all other transitions are unrestricted.
\<close>

theorem disciplined_at_most_one_active:
  assumes "disciplinedRun initialApp es"
  shows "activeCount (questions (run initialApp es)) \<le> 1"
proof -
  have "oneActive initialApp"
    by (simp add: oneActive_def initialApp_def activeCount_def)
  from oneActive_run [OF this assms] show ?thesis
    by (simp add: oneActive_def)
qed

theorem disciplined_at_most_one_active_witness:
  "disciplinedRun initialApp
     [(StartSession 3 idealTwoConfig, 0, 0), (UpdateStatus 1 ACTIVE, 10, 10),
      (Tick, 110, 110), (UpdateStatus 1 PAUSED, 120, 120), (UpdateStatus 2 ACTIVE, 130, 130)]
   \<and> activeCount (questions (run initialApp
     [(StartSession 3 idealTwoConfig, 0, 0), (UpdateStatus 1 ACTIVE, 10, 10),
      (Tick, 110, 110), (UpdateStatus 1 PAUSED, 120, 120), (UpdateStatus 2 ACTIVE, 130, 130)]))
       \<le> 1"
proof -
  have "disciplinedRun startedThree
     [(UpdateStatus 1 ACTIVE, 10, 10),
      (Tick, 110, 110), (UpdateStatus 1 PAUSED, 120, 120), (UpdateStatus 2 ACTIVE, 130, 130)]"
    by code_simp
  then have h: "disciplinedRun initialApp
     [(StartSession 3 idealTwoConfig, 0, 0), (UpdateStatus 1 ACTIVE, 10, 10),
      (Tick, 110, 110), (UpdateStatus 1 PAUSED, 120, 120), (UpdateStatus 2 ACTIVE, 130, 130)]"
    by (simp add: startedThree_step disciplined_def)
  from disciplined_at_most_one_active [OF h] h show ?thesis
    by simp
qed




text \<open>
  C5. A tick never changes the \<open>timeSpentMs\<close> of a record whose status is COMPLETED or
  SKIPPED, and no status transition changes the \<open>timeSpentMs\<close> of any record. Accrual is
  cumulative across a skip and a resume: record 1 accrues 1000 ms while ACTIVE, is SKIPPED
  (\<open>timeSpentMs\<close> stays 1000, also over a tick, and \<open>wasSkipped\<close> is true), is resumed to
  ACTIVE, accrues another 2000 ms and is COMPLETED; its final \<open>timeSpentMs\<close> is 3000 with
  \<open>wasSkipped\<close> true, also after one more tick.
\<close>

theorem accrual_frozen_and_cumulative:
  "(i < length (questions s)
      \<and> (status (questions s ! i) = COMPLETED \<or> status (questions s ! i) = SKIPPED)
     \<longrightarrow> timeSpentMs (questions (step Tick now nowE s) ! i) = timeSpentMs (questions s ! i))
   \<and> (i < length (questions s)
     \<longrightarrow> timeSpentMs (questions (step (UpdateStatus k newStatus) now nowE s) ! i)
           = timeSpentMs (questions s ! i))
   \<and> questions skippedOne ! 0
        = \<lparr>id_q = 1, status = SKIPPED, timeSpentMs = 1000, wasSkipped = True\<rparr>
   \<and> resumedCompletedOne =
        run skippedOne
          [(UpdateStatus 1 ACTIVE, 1500, 1500), (Tick, 2500, 2500), (Tick, 3500, 3500),
           (UpdateStatus 1 COMPLETED, 3500, 3500), (Tick, 3600, 3600)]
   \<and> questions resumedCompletedOne ! 0
        = \<lparr>id_q = 1, status = COMPLETED, timeSpentMs = 3000, wasSkipped = True\<rparr>"
proof -
  have frozen: "i < length (questions s)
      \<and> (status (questions s ! i) = COMPLETED \<or> status (questions s ! i) = SKIPPED)
     \<longrightarrow> timeSpentMs (questions (step Tick now nowE s) ! i) = timeSpentMs (questions s ! i)"
    by (auto simp add: step_Tick intervalCallback_questions)
  have trans: "i < length (questions s)
     \<longrightarrow> timeSpentMs (questions (step (UpdateStatus k newStatus) now nowE s) ! i)
           = timeSpentMs (questions s ! i)"
    by (simp add: step_frame handler_def updateQuestionStatus_questions updateOne_fst)
  have a: "questions skippedOne ! 0
         = \<lparr>id_q = 1, status = SKIPPED, timeSpentMs = 1000, wasSkipped = True\<rparr>"
    by code_simp
  have b: "questions resumedCompletedOne ! 0
         = \<lparr>id_q = 1, status = COMPLETED, timeSpentMs = 3000, wasSkipped = True\<rparr>"
    by code_simp
  from frozen trans a b show ?thesis
    by (simp only: resumedCompletedOne_def simp_thms)
qed

theorem accrual_frozen_and_cumulative_witness:
  "(0::nat) < length (questions skippedOne)
   \<and> status (questions skippedOne ! 0) = SKIPPED
   \<and> timerIntervalRef skippedOne
   \<and> timeSpentMs (questions (step Tick 9000 9000 skippedOne) ! 0) = 1000
   \<and> remainingTimeMs (step Tick 9000 9000 skippedOne) = 351000
   \<and> timeSpentMs (questions (step (UpdateStatus 1 ACTIVE) 9000 9000 skippedOne) ! 0) = 1000"
proof -
  have h1: "(0::nat) < length (questions skippedOne)" by code_simp
  have h2: "status (questions skippedOne ! 0) = SKIPPED" by code_simp
  have v: "timeSpentMs (questions skippedOne ! 0) = 1000" by code_simp
  have r: "timerIntervalRef skippedOne" "remainingTimeMs (step Tick 9000 9000 skippedOne) = 351000"
    by code_simp+
  from accrual_frozen_and_cumulative [of 0 skippedOne 9000 9000 1 ACTIVE] h1 h2 v r
  show ?thesis by simp
qed

text \<open>
  C7. In every state reached from the initial state by any run of events, an interval is
  registered, and so a tick runs the callback, if and only if the tracker view is shown
  and \<open>isGlobalPaused\<close> is false. While the clock is paused, the timer firing at any
  instants leaves the whole state as it is, \<open>remainingTimeMs\<close> and every
  \<open>timeSpentMs\<close> included.
\<close>

theorem clock_runs_iff_tracker_and_unpaused:
  "timerIntervalRef (run initialApp es)
     = (view (run initialApp es) = TRACKER \<and> \<not> isGlobalPaused (run initialApp es))
   \<and> step Tick now nowE (run initialApp es)
     = (if view (run initialApp es) = TRACKER \<and> \<not> isGlobalPaused (run initialApp es)
        then intervalCallback now (run initialApp es) else run initialApp es)
   \<and> (isGlobalPaused (run initialApp es)
      \<longrightarrow> run (run initialApp es) (ticksAt ts) = run initialApp es)"
proof -
  have "timerConsistent initialApp"
    by (simp add: timerConsistent_def initialApp_def)
  then have "timerConsistent (run initialApp es)"
    by (rule timerConsistent_run)
  then have c: "timerIntervalRef (run initialApp es)
     = (view (run initialApp es) = TRACKER \<and> \<not> isGlobalPaused (run initialApp es))"
    by (simp add: timerConsistent_def)
  have idle: "isGlobalPaused (run initialApp es)
      \<longrightarrow> run (run initialApp es) (ticksAt ts) = run initialApp es"
    using c by (auto intro: run_ticks_idle)
  have tick: "step Tick now nowE (run initialApp es)
     = (if view (run initialApp es) = TRACKER \<and> \<not> isGlobalPaused (run initialApp es)
        then intervalCallback now (run initialApp es) else run initialApp es)"
    by (simp only: step_Tick c)
  from c idle tick show ?thesis by (intro conjI)
qed

theorem clock_runs_iff_tracker_and_unpaused_witness:
  "isGlobalPaused pausedWhileActive
   \<and> status (questions pausedWhileActive ! 0) = ACTIVE
   \<and> \<not> timerIntervalRef pausedWhileActive
   \<and> step Tick 450 450 pausedWhileActive = pausedWhileActive
   \<and> run pausedWhileActive (ticksAt [(450, 450), (550, 550), (900000, 900000)])
       = pausedWhileActive
   \<and> remainingTimeMs pausedWhileActive = 359700
   \<and> timeSpentMs (questions pausedWhileActive ! 0) = 300"
proof -
  have v: "isGlobalPaused pausedWhileActive" "status (questions pausedWhileActive ! 0) = ACTIVE"
    "remainingTimeMs pausedWhileActive = 359700"
    "timeSpentMs (questions pausedWhileActive ! 0) = 300"
    by code_simp+
  from clock_runs_iff_tracker_and_unpaused
         [of "[(StartSession 3 idealTwoConfig, 0, 0), (UpdateStatus 1 ACTIVE, 0, 0),
               (Tick, 300, 300), (Pause, 350, 350)]" 450 450
             "[(450, 450), (550, 550), (900000, 900000)]",
          folded pausedWhileActive_def]
       v
  show ?thesis
    by simp
qed

text \<open>
  C9. The transition of a record to SKIPPED sets its \<open>wasSkipped\<close> to true. Once
  \<open>wasSkipped\<close> is true for the record at a position, it is true after every run of
  events of the session (status transitions with any id and any new status, a later
  SKIPPED included, ticks, pauses, resumes, finishing), and the record stays at its
  position with its id.
\<close>

theorem wasSkipped_monotone:
  "(i < length (questions s) \<and> id_q (questions s ! i) = k
     \<longrightarrow> wasSkipped (questions (step (UpdateStatus k SKIPPED) now nowE s) ! i))
   \<and> (list_all sessionEvent (map fst es) \<and> i < length (questions s)
        \<and> wasSkipped (questions s ! i)
     \<longrightarrow> length (questions (run s es)) = length (questions s)
         \<and> id_q (questions (run s es) ! i) = id_q (questions s ! i)
         \<and> wasSkipped (questions (run s es) ! i))"
proof -
  have first: "i < length (questions s) \<and> id_q (questions s ! i) = k
     \<longrightarrow> wasSkipped (questions (step (UpdateStatus k SKIPPED) now nowE s) ! i)"
    by (simp add: step_frame handler_def updateQuestionStatus_questions updateOne_fst)
  from first run_sessionEvents_wasSkipped [of es i s] show ?thesis
    by blast
qed

theorem wasSkipped_monotone_witness:
  "(0::nat) < length (questions startedThree)
   \<and> id_q (questions startedThree ! 0) = 1
   \<and> \<not> wasSkipped (questions startedThree ! 0)
   \<and> wasSkipped (questions (step (UpdateStatus 1 SKIPPED) 50 50 startedThree) ! 0)
   \<and> wasSkipped (questions skippedOne ! 0)
   \<and> wasSkipped (questions (run skippedOne
        [(UpdateStatus 1 ACTIVE, 1500, 1500), (Tick, 2500, 2500),
         (UpdateStatus 1 PAUSED, 2600, 2600), (UpdateStatus 1 SKIPPED, 2700, 2700),
         (Pause, 2800, 2800), (Resume, 2900, 2900), (UpdateStatus 1 ACTIVE, 3000, 3000),
         (UpdateStatus 1 COMPLETED, 3500, 3500), (FinishSession, 3600, 3600)]) ! 0)"
proof -
  have a: "(0::nat) < length (questions startedThree)" "id_q (questions startedThree ! 0) = 1"
    "\<not> wasSkipped (questions startedThree ! 0)"
    by code_simp+
  have b: "(0::nat) < length (questions skippedOne)" "wasSkipped (questions skippedOne ! 0)"
    by code_simp+
  have c: "list_all sessionEvent (map fst
        [(UpdateStatus 1 ACTIVE, 1500::int, 1500::int), (Tick, 2500, 2500),
         (UpdateStatus 1 PAUSED, 2600, 2600), (UpdateStatus 1 SKIPPED, 2700, 2700),
         (Pause, 2800, 2800), (Resume, 2900, 2900), (UpdateStatus 1 ACTIVE, 3000, 3000),
         (UpdateStatus 1 COMPLETED, 3500, 3500), (FinishSession, 3600, 3600)])"
    by simp
  from wasSkipped_monotone [of 0 startedThree 1 50 50 "[]"]
       wasSkipped_monotone [of 0 skippedOne 1 50 50
        "[(UpdateStatus 1 ACTIVE, 1500, 1500), (Tick, 2500, 2500),
         (UpdateStatus 1 PAUSED, 2600, 2600), (UpdateStatus 1 SKIPPED, 2700, 2700),
         (Pause, 2800, 2800), (Resume, 2900, 2900), (UpdateStatus 1 ACTIVE, 3000, 3000),
         (UpdateStatus 1 COMPLETED, 3500, 3500), (FinishSession, 3600, 3600)]"]
       a b c
  show ?thesis by blast
qed

text \<open>
  C6. In the tracker view, a pause at \<open>t1\<close>, any timer firings while paused, and a resume
  at \<open>t2\<close> (its effect reading the clock at \<open>t2E\<close>) leave \<open>remainingTimeMs\<close> and the
  registry as they were, and resynchronise \<open>lastTickRef\<close> to \<open>t2E\<close>. The first tick
  after the resume, at \<open>t3\<close>, charges exactly \<open>t3 - t2E\<close> to the budget and to the linked
  ACTIVE record, and nothing to any other record: the length of the pause is credited to
  neither.
\<close>

theorem resume_no_backfill:
  assumes "view s = TRACKER" and "timerConsistent s" and "i < length (questions s)"
  shows "lastTickRef (run s ((Pause, t1, t1E) # ticksAt ts @ [(Resume, t2, t2E)])) = t2E
    \<and> remainingTimeMs (run s ((Pause, t1, t1E) # ticksAt ts @ [(Resume, t2, t2E)]))
        = remainingTimeMs s
    \<and> questions (run s ((Pause, t1, t1E) # ticksAt ts @ [(Resume, t2, t2E)])) = questions s
    \<and> remainingTimeMs
         (run s ((Pause, t1, t1E) # ticksAt ts @ [(Resume, t2, t2E), (Tick, t3, t3E)]))
        = remainingTimeMs s - (t3 - t2E)
    \<and> timeSpentMs
         (questions
            (run s ((Pause, t1, t1E) # ticksAt ts @ [(Resume, t2, t2E), (Tick, t3, t3E)])) ! i)
        = timeSpentMs (questions s ! i)
            + (if activeQuestionId s = Some (id_q (questions s ! i))
                  \<and> status (questions s ! i) = ACTIVE
               then t3 - t2E else 0)"
proof -
  define s1 where "s1 = step Pause t1 t1E s"
  define s2 where "s2 = step Resume t2 t2E s1"
  define s3 where "s3 = step Tick t3 t3E s2"
  have s1: "view s1 = TRACKER" "isGlobalPaused s1" "questions s1 = questions s"
    "remainingTimeMs s1 = remainingTimeMs s" "activeQuestionId s1 = activeQuestionId s"
    using assms(1) by (simp_all add: s1_def step_frame handler_def onPause_def)
  have "timerConsistent s1"
    unfolding s1_def using assms(2) by (rule timerConsistent_step)
  with s1 have idle: "\<not> timerIntervalRef s1"
    by (simp add: timerConsistent_def)
  have wait: "run s1 (ticksAt ts) = s1"
    using idle by (rule run_ticks_idle)
  have "depsChanged s1 (handler Resume t2 s1)"
    using s1 by (simp add: depsChanged_def handler_def onResume_def)
  then have s2_eq: "s2 = timerEffect t2E (onResume t2 s1)"
    by (simp add: s2_def step_def Let_def handler_def)
  have s2: "lastTickRef s2 = t2E" "timerIntervalRef s2" "questions s2 = questions s"
    "remainingTimeMs s2 = remainingTimeMs s" "activeQuestionId s2 = activeQuestionId s"
    using s1
    by (simp_all add: s2_eq timerEffect_lastTick timerEffect_interval timerEffect_frame
          onResume_def)
  have s3_eq: "s3 = intervalCallback t3 s2"
    using s2(2) by (simp add: s3_def step_Tick)
  have s3: "remainingTimeMs s3 = remainingTimeMs s - (t3 - t2E)"
    "timeSpentMs (questions s3 ! i)
        = timeSpentMs (questions s ! i)
            + (if activeQuestionId s = Some (id_q (questions s ! i))
                  \<and> status (questions s ! i) = ACTIVE
               then t3 - t2E else 0)"
    using assms(3)
    by (simp_all add: s3_eq intervalCallback_frame intervalCallback_questions s2)
  have r2: "run s ((Pause, t1, t1E) # ticksAt ts @ [(Resume, t2, t2E)]) = s2"
    by (simp add: run_append wait s1_def [symmetric] s2_def)
  have r3: "run s ((Pause, t1, t1E) # ticksAt ts @ [(Resume, t2, t2E), (Tick, t3, t3E)]) = s3"
    by (simp add: run_append wait s1_def [symmetric] s2_def [symmetric] s3_def)
  show ?thesis
    unfolding r2 r3 using s2 s3 by simp
qed

theorem resume_no_backfill_witness:
  "view activeRunning = TRACKER \<and> timerConsistent activeRunning
   \<and> (0::nat) < length (questions activeRunning)
   \<and> remainingTimeMs activeRunning = 359700
   \<and> timeSpentMs (questions activeRunning ! 0) = 300
   \<and> remainingTimeMs
        (run activeRunning
           ((Pause, 350, 350) # ticksAt [(450, 450), (5000, 5000)]
              @ [(Resume, 60000, 60001), (Tick, 60101, 60101)])) = 359600
   \<and> timeSpentMs
        (questions
           (run activeRunning
              ((Pause, 350, 350) # ticksAt [(450, 450), (5000, 5000)]
                 @ [(Resume, 60000, 60001), (Tick, 60101, 60101)])) ! 0) = 400"
proof -
  have h: "view activeRunning = TRACKER" "timerConsistent activeRunning"
    "(0::nat) < length (questions activeRunning)"
    by code_simp+
  have v: "remainingTimeMs activeRunning = 359700"
    "timeSpentMs (questions activeRunning ! 0) = 300"
    "activeQuestionId activeRunning = Some 1"
    "id_q (questions activeRunning ! 0) = 1"
    "status (questions activeRunning ! 0) = ACTIVE"
    by code_simp+
  from resume_no_backfill [OF h, of 350 350 "[(450, 450), (5000, 5000)]" 60000 60001 60101 60101]
       h v
  show ?thesis by simp
qed

text \<open>
  C10. COMPLETED is not terminal in the transition operation: on a record whose status is
  COMPLETED, a status transition with any new status overwrites the status with it. With
  ACTIVE the record becomes ACTIVE, \<open>activeQuestionId\<close> becomes its id, and while the
  clock runs the next tick adds its measured delta to the \<open>timeSpentMs\<close> the record had
  when it was COMPLETED.
\<close>

theorem completed_is_not_terminal:
  assumes "i < length (questions s)" and "status (questions s ! i) = COMPLETED"
    and "id_q (questions s ! i) = k"
  shows "status (questions (step (UpdateStatus k newStatus) now nowE s) ! i) = newStatus
    \<and> status (questions (step (UpdateStatus k ACTIVE) now nowE s) ! i) = ACTIVE
    \<and> activeQuestionId (step (UpdateStatus k ACTIVE) now nowE s) = Some k
    \<and> timeSpentMs (questions (step (UpdateStatus k ACTIVE) now nowE s) ! i)
        = timeSpentMs (questions s ! i)
    \<and> (timerIntervalRef (step (UpdateStatus k ACTIVE) now nowE s)
       \<longrightarrow> timeSpentMs
             (questions (step Tick t tE (step (UpdateStatus k ACTIVE) now nowE s)) ! i)
           = timeSpentMs (questions s ! i)
               + (t - lastTickRef (step (UpdateStatus k ACTIVE) now nowE s)))"
proof -
  define s' where "s' = step (UpdateStatus k ACTIVE) now nowE s"
  have overwrite: "status (questions (step (UpdateStatus k newStatus) now nowE s) ! i) = newStatus"
    using assms(1,3)
    by (simp add: step_frame handler_def updateQuestionStatus_questions updateOne_fst)
  have q': "status (questions s' ! i) = ACTIVE" "id_q (questions s' ! i) = k"
    "timeSpentMs (questions s' ! i) = timeSpentMs (questions s ! i)"
    "length (questions s') = length (questions s)"
    using assms(1,3)
    by (simp_all add: s'_def step_frame handler_def updateQuestionStatus_questions
          updateOne_fst)
  from assms(1,3) have ex: "\<exists>q \<in> set (questions s). id_q q = k"
    using nth_mem by blast
  have "(activeQuestionId (updateQuestionStatus now k ACTIVE s),
         lastTickRef (updateQuestionStatus now k ACTIVE s)) = (Some k, now)"
    by (simp add: updateQuestionStatus_clock mapUpdate_snd_present [OF ex])
  then have a': "activeQuestionId s' = Some k"
    by (simp add: s'_def step_frame handler_def)
  have accrue: "timerIntervalRef s' \<longrightarrow>
      timeSpentMs (questions (step Tick t tE s') ! i)
        = timeSpentMs (questions s ! i) + (t - lastTickRef s')"
    using assms(1) q' a'
    by (simp add: step_Tick intervalCallback_questions)
  from overwrite q' a' accrue show ?thesis
    unfolding s'_def by simp
qed

theorem completed_is_not_terminal_witness:
  "(0::nat) < length (questions resumedCompletedOne)
   \<and> questions resumedCompletedOne ! 0
       = \<lparr>id_q = 1, status = COMPLETED, timeSpentMs = 3000, wasSkipped = True\<rparr>
   \<and> status (questions (step (UpdateStatus 1 PAUSED) 4000 4001 resumedCompletedOne) ! 0)
       = PAUSED
   \<and> status (questions (step (UpdateStatus 1 ACTIVE) 4000 4001 resumedCompletedOne) ! 0)
       = ACTIVE
   \<and> activeQuestionId (step (UpdateStatus 1 ACTIVE) 4000 4001 resumedCompletedOne) = Some 1
   \<and> timerIntervalRef (step (UpdateStatus 1 ACTIVE) 4000 4001 resumedCompletedOne)
   \<and> timeSpentMs
        (questions
           (step Tick 4101 4101
              (step (UpdateStatus 1 ACTIVE) 4000 4001 resumedCompletedOne)) ! 0) = 3100"
proof -
  have h1: "(0::nat) < length (questions resumedCompletedOne)" by code_simp
  have q: "questions resumedCompletedOne ! 0
       = \<lparr>id_q = 1, status = COMPLETED, timeSpentMs = 3000, wasSkipped = True\<rparr>"
    by code_simp
  then have h2: "status (questions resumedCompletedOne ! 0) = COMPLETED"
    and h3: "id_q (questions resumedCompletedOne ! 0) = 1"
    by simp_all
  have r: "timerIntervalRef (step (UpdateStatus 1 ACTIVE) 4000 4001 resumedCompletedOne)"
    "lastTickRef (step (UpdateStatus 1 ACTIVE) 4000 4001 resumedCompletedOne) = 4001"
    by code_simp+
  from completed_is_not_terminal [OF h1 h2 h3, of PAUSED 4000 4001 4101 4101]
       completed_is_not_terminal [OF h1 h2 h3, of ACTIVE 4000 4001 4101 4101]
       h1 q r
  show ?thesis by simp
qed

end
